theory Spec2Isabelle
  imports Main "HOL-Library.Word" "HOL-Library.Monad_Syntax"
begin

unbundle bit_operations_syntax

section \<open>Pulses of the LF key/value store\<close>

text \<open>
  A shallow embedding of the pulse code of package \<open>lf\<close>: the accessors \<open>Key\<close>,
  \<open>Minutes\<close> and \<open>Token\<close> of type \<open>Pulse\<close>, and the generator \<open>NewPulse\<close>.

  Conventions of the embedding.
  \<^item> A Go byte slice is a list of \<open>8 word\<close>; a nil slice is the empty list.
  \<^item> \<open>uint64\<close> is \<open>64 word\<close>. \<open>uint\<close> is the machine word, taken as 64 bits; no
    operation of this code on a \<open>uint\<close> leaves the range of 32 bits either.
  \<^item> A function that may panic returns an \<open>option\<close>, and \<open>None\<close> is the panic
    (an index or a slice bound out of range). Every function of the pulse code is
    embedded this way, so that "returns without failing" is a statement \<open>f x = Some y\<close>.
  \<^item> A Go result of type \<open>error\<close> is an \<open>Err option\<close>, \<open>None\<close> being \<open>nil\<close>.
  \<^item> The functions of other files that the pulse code calls, \<open>th64n\<close>, the SHA-256
    digest and \<open>Owner.PrivateHash\<close>, are parameters.
  \<^item> \<open>Pulse.String\<close>, which only calls \<open>Base62Encode\<close> of another file, is not
    embedded; no statement below is about the textual form.
\<close>

subsection \<open>Types and constants\<close>

type_synonym byte = "8 word"
type_synonym uint64 = "64 word"
type_synonym uint = "64 word"

text \<open>\<open>type Pulse Blob\<close>, a byte slice.\<close>

type_synonym Pulse = "byte list"

text \<open>\<open>const PulseSize = 11\<close>\<close>

definition PulseSize :: nat where
  "PulseSize = 11"

text \<open>
  Modelled from the spec: the constant \<open>RecordMaxPulseSpan\<close>, declared in a file of the
  record subsystem that is not among the sources. The spec calls it "an externally
  defined system constant bounding the chain's maximum length, e.g. one year expressed
  in minutes", and \<open>errors.go\<close> words the matching error as "pulse is more than one
  year after record". The proofs below use its value only through the bound
  \<open>RecordMaxPulseSpan < 2 ^ 24\<close> (it fits the three minute bytes of a pulse) and, for
  the scenario with 10 and 20 minutes, \<open>20 \<le> RecordMaxPulseSpan\<close>.
\<close>

definition RecordMaxPulseSpan :: uint where
  "RecordMaxPulseSpan = 365 * 24 * 60"

text \<open>\<open>type Err string\<close> of \<open>errors.go\<close>, and the two constants the pulse code returns.\<close>

datatype Err = Err string

definition ErrInvalidParameter :: Err where
  "ErrInvalidParameter = Err ''invalid parameter''"

definition ErrPrivateKeyRequired :: Err where
  "ErrPrivateKeyRequired = Err ''private key required''"

text \<open>
  The part of \<open>Owner\<close> that the pulse code reads: the field \<open>Private\<close>, \<open>nil\<close> for an
  owner without private key material. The type of the key itself is left open.
\<close>

record 'k Owner =
  Private :: "'k option"

subsection \<open>Slices and \<open>encoding/binary\<close>\<close>

text \<open>\<open>b[i]\<close> as a read: it panics when \<open>i\<close> is not below the length.\<close>

definition at :: "'a list \<Rightarrow> nat \<Rightarrow> 'a option" where
  "at b i = (if i < length b then Some (b ! i) else None)"

text \<open>\<open>b[i] = x\<close> as a write, with the same bounds check.\<close>

definition store :: "'a list \<Rightarrow> nat \<Rightarrow> 'a \<Rightarrow> 'a list option" where
  "store b i x = (if i < length b then Some (b[i := x]) else None)"

text \<open>
  \<open>binary.BigEndian.Uint64(b)\<close>: after the bounds check \<open>_ = b[7]\<close>,
  \<open>uint64(b[7]) | uint64(b[6])<<8 | ... | uint64(b[0])<<56\<close>.
\<close>

definition BigEndian_Uint64 :: "byte list \<Rightarrow> uint64 option" where
  "BigEndian_Uint64 b =
     (if length b < 8 then None
      else Some (ucast (b ! 7) OR push_bit 8 (ucast (b ! 6)) OR push_bit 16 (ucast (b ! 5))
           OR push_bit 24 (ucast (b ! 4)) OR push_bit 32 (ucast (b ! 3))
           OR push_bit 40 (ucast (b ! 2)) OR push_bit 48 (ucast (b ! 1))
           OR push_bit 56 (ucast (b ! 0))))"

text \<open>
  \<open>binary.BigEndian.PutUint64(b, v)\<close>: after the same bounds check,
  \<open>b[0] = byte(v >> 56)\<close>, ..., \<open>b[7] = byte(v)\<close>. The updated buffer is returned. The
  pulse code always passes the slice \<open>x[0:8]\<close> of an array \<open>x\<close>, which shares the
  storage of \<open>x\<close>: the call is embedded as \<open>PutUint64 x v\<close>, and updates the first
  eight bytes of \<open>x\<close>.
\<close>

definition PutUint64 :: "byte list \<Rightarrow> uint64 \<Rightarrow> byte list option" where
  "PutUint64 b v =
     (if length b < 8 then None
      else Some (b[0 := ucast (drop_bit 56 v), 1 := ucast (drop_bit 48 v),
                   2 := ucast (drop_bit 40 v), 3 := ucast (drop_bit 32 v),
                   4 := ucast (drop_bit 24 v), 5 := ucast (drop_bit 16 v),
                   6 := ucast (drop_bit 8 v), 7 := ucast v]))"

subsection \<open>The accessors of a pulse\<close>

text \<open>
  \<open>func (p Pulse) Key() uint64\<close>: zero unless \<open>p\<close> has \<open>PulseSize\<close> bytes, and then the
  big-endian value of the slice \<open>p[0:8]\<close>.
\<close>

definition Key :: "Pulse \<Rightarrow> uint64 option" where
  "Key p = (if length p \<noteq> PulseSize then Some 0 else BigEndian_Uint64 (take 8 p))"

text \<open>
  \<open>func (p Pulse) Minutes() uint\<close>: zero unless \<open>p\<close> has \<open>PulseSize\<close> bytes; then
  \<open>uint(p[8]) << 16 | uint(p[9]) << 8 | uint(p[10])\<close>, replaced by
  \<open>RecordMaxPulseSpan\<close> when it is greater.
\<close>

definition Minutes :: "Pulse \<Rightarrow> uint option" where
  "Minutes p =
     (if length p \<noteq> PulseSize then Some 0
      else do {
        b8 \<leftarrow> at p 8;
        b9 \<leftarrow> at p 9;
        b10 \<leftarrow> at p 10;
        let minutes = push_bit 16 (ucast b8);
        let minutes = minutes OR push_bit 8 (ucast b9);
        let minutes = minutes OR ucast b10;
        if minutes > RecordMaxPulseSpan then Some RecordMaxPulseSpan else Some minutes
      })"

text \<open>
  \<open>func (p Pulse) Token() uint64 { return th64n(p.Key(), p.Minutes()) }\<close>. The chain
  function \<open>th64n\<close> is defined in another file: it is the first parameter.
\<close>

definition Token :: "(uint64 \<Rightarrow> uint \<Rightarrow> uint64) \<Rightarrow> Pulse \<Rightarrow> uint64 option" where
  "Token th64n p = do {
     k \<leftarrow> Key p;
     m \<leftarrow> Minutes p;
     Some (th64n k m)
   }"

subsection \<open>The hasher\<close>

text \<open>
  \<open>sha256.New()\<close> returns a \<open>hash.Hash\<close>. Its state is the sequence of bytes written so
  far: \<open>Write\<close> appends to it, and \<open>Sum(b)\<close> appends to \<open>b\<close> the digest of what was
  written, leaving the state as it is. The digest function itself is a parameter,
  \<open>sha256\<close>; its value is an array of \<open>sha256.Size = 32\<close> bytes, taken here as one
  word of 256 bits whose bytes, most significant first, are \<open>digest_bytes\<close>.
\<close>

type_synonym hasher = "byte list"

definition sha256_New :: hasher where
  "sha256_New = []"

definition Write :: "hasher \<Rightarrow> byte list \<Rightarrow> hasher" where
  "Write h b = h @ b"

definition digest_bytes :: "256 word \<Rightarrow> byte list" where
  "digest_bytes d = map (\<lambda>i. ucast (drop_bit (8 * (31 - i)) d)) [0..<32]"

definition Sum :: "(byte list \<Rightarrow> 256 word) \<Rightarrow> hasher \<Rightarrow> byte list \<Rightarrow> byte list" where
  "Sum sha256 h b = b @ digest_bytes (sha256 h)"

subsection \<open>\<open>NewPulse\<close>\<close>

text \<open>
  The loop over the selectors:
  \<^verbatim>\<open>
  for i := 0; i < len(selectorNames); i++ {
      pulseTokenHasher.Write(selectorNames[i])
      if i < len(selectorOrdinals) {
          binary.BigEndian.PutUint64(tmp[0:8], selectorOrdinals[i])
          pulseTokenHasher.Write(tmp[0:8])
      }
  }
  \<close>
  Its state is the index, the scratch array \<open>tmp\<close> and the hasher.
\<close>

function selectors_loop ::
  "byte list list \<Rightarrow> uint64 list \<Rightarrow> nat \<Rightarrow> byte list \<Rightarrow> hasher \<Rightarrow> (byte list \<times> hasher) option" where
  "selectors_loop selectorNames selectorOrdinals i tmp h =
     (if i < length selectorNames then do {
        name \<leftarrow> at selectorNames i;
        let h = Write h name;
        if i < length selectorOrdinals then do {
          ordinal \<leftarrow> at selectorOrdinals i;
          tmp \<leftarrow> PutUint64 tmp ordinal;
          let h = Write h (take 8 tmp);
          selectors_loop selectorNames selectorOrdinals (i + 1) tmp h
        } else selectors_loop selectorNames selectorOrdinals (i + 1) tmp h
      } else Some (tmp, h))"
  by pat_completeness auto
termination
  by (relation "measure (\<lambda>(selectorNames, selectorOrdinals, i, tmp, h). length selectorNames - i)")
    auto

declare selectors_loop.simps [simp del]

text \<open>
  \<open>func NewPulse(owner *Owner, selectorNames [][]byte, selectorOrdinals []uint64,
  recordTimestamp uint64, minutes uint) (p Pulse, err error)\<close>.
  The first three parameters are the functions of other files: the chain function
  \<open>th64n\<close>, the SHA-256 digest and \<open>Owner.PrivateHash\<close>. The result is the pair of the
  named results \<open>p\<close> and \<open>err\<close>; at the two early returns \<open>p\<close> still has its zero value,
  the nil slice. The pointer \<open>owner\<close> is taken to be non-nil.
\<close>

definition NewPulse ::
  "(uint64 \<Rightarrow> uint \<Rightarrow> uint64) \<Rightarrow> (byte list \<Rightarrow> 256 word) \<Rightarrow> ('k Owner \<Rightarrow> byte list) \<Rightarrow>
   'k Owner \<Rightarrow> byte list list \<Rightarrow> uint64 list \<Rightarrow> uint64 \<Rightarrow> uint \<Rightarrow>
   (Pulse \<times> Err option) option" where
  "NewPulse th64n sha256 PrivateHash owner selectorNames selectorOrdinals recordTimestamp minutes =
     (if Private owner = None then Some ([], Some ErrPrivateKeyRequired)
      else if minutes > RecordMaxPulseSpan then Some ([], Some ErrInvalidParameter)
      else do {
        let tmp = replicate 32 0;
        let pulseTokenHasher = sha256_New;
        (tmp, pulseTokenHasher) \<leftarrow>
          selectors_loop selectorNames selectorOrdinals 0 tmp pulseTokenHasher;
        tmp \<leftarrow> PutUint64 tmp recordTimestamp;
        let pulseTokenHasher = Write pulseTokenHasher (take 8 tmp);
        let ophash = PrivateHash owner;
        let pulseTokenHasher = Write pulseTokenHasher ophash;
        let pbuf = replicate PulseSize 0;
        let p = pbuf;
        seed \<leftarrow> BigEndian_Uint64 (Sum sha256 pulseTokenHasher (take 0 tmp));
        p \<leftarrow> PutUint64 p (th64n seed (RecordMaxPulseSpan - minutes));
        p \<leftarrow> store p 8 (ucast (drop_bit 16 minutes));
        p \<leftarrow> store p 9 (ucast (drop_bit 8 minutes));
        p \<leftarrow> store p 10 (ucast minutes);
        Some (p, None)
      })"

section \<open>What the spec says of a pulse\<close>

text \<open>
  The definitions of this section follow the words of the spec, not the code; the
  theorems compare the code with them.
\<close>

text \<open>
  "The big-endian integer formed from" a sequence of bytes: the first byte is the most
  significant digit in base 256.
\<close>

definition be_value :: "byte list \<Rightarrow> nat" where
  "be_value bs = foldl (\<lambda>a b. 256 * a + unat b) 0 bs"

text \<open>
  A 64-bit value "as 8 big-endian bytes": byte \<open>k\<close>, counted from 0, is the digit of
  weight \<open>256 ^ (7 - k)\<close>.
\<close>

definition be64 :: "uint64 \<Rightarrow> byte list" where
  "be64 v = map (\<lambda>k. of_nat (unat v div 256 ^ (7 - k) mod 256)) [0..<8]"

text \<open>
  The hashed data: "for each selector index \<open>i\<close> in \<open>selectorNames\<close>, the raw selector
  name bytes followed, only if \<open>i\<close> is within range of \<open>selectorOrdinals\<close>, by the
  selector's ordinal value as 8 big-endian bytes; then the record's 8-byte big-endian
  timestamp; then a private per-owner derived hash".
\<close>

definition spec_seed_input :: "byte list list \<Rightarrow> uint64 list \<Rightarrow> uint64 \<Rightarrow> byte list \<Rightarrow> byte list" where
  "spec_seed_input selectorNames selectorOrdinals recordTimestamp ophash =
     concat (map (\<lambda>i. selectorNames ! i @
                    (if i < length selectorOrdinals then be64 (selectorOrdinals ! i) else []))
               [0..<length selectorNames])
     @ be64 recordTimestamp @ ophash"

text \<open>The anchor seed \<open>S\<close>: "the first 8 bytes of the digest as a 64-bit seed".\<close>

definition spec_anchor_seed ::
  "(byte list \<Rightarrow> 256 word) \<Rightarrow> byte list list \<Rightarrow> uint64 list \<Rightarrow> uint64 \<Rightarrow> byte list \<Rightarrow> uint64" where
  "spec_anchor_seed sha256 selectorNames selectorOrdinals recordTimestamp ophash =
     of_nat (be_value (take 8 (digest_bytes
       (sha256 (spec_seed_input selectorNames selectorOrdinals recordTimestamp ophash)))))"

text \<open>
  The two laws of the chain function: \<open>chain(x, 0) = x\<close> and
  \<open>chain(chain(x, a), b) = chain(x, a + b)\<close>. The second is asked only where \<open>a + b\<close>
  does not wrap around as a \<open>uint\<close>, so that the function that applies a step \<open>n\<close>
  times, which is how the spec describes the chain, has both laws whatever the step.
\<close>

definition chain_laws :: "(uint64 \<Rightarrow> uint \<Rightarrow> uint64) \<Rightarrow> bool" where
  "chain_laws chain \<longleftrightarrow>
     (\<forall>x. chain x 0 = x) \<and>
     (\<forall>x a b. unat a + unat b < 2 ^ 64 \<longrightarrow> chain (chain x a) b = chain x (a + b))"

text \<open>
  Modelled from the spec: the chain function, which the code calls \<open>th64n\<close> and defines in
  a file that is not among the sources. The spec says that \<open>chain(x, n)\<close> "applies a fixed,
  pure, one-way 64-bit mixing transform to \<open>x\<close> exactly \<open>n\<close> times". The transform is the
  parameter \<open>step\<close>. The theorems do not depend on this definition: they take \<open>th64n\<close> as
  a parameter, and \<open>iterate step\<close> is what they are instantiated with.
\<close>

definition iterate :: "(uint64 \<Rightarrow> uint64) \<Rightarrow> uint64 \<Rightarrow> uint \<Rightarrow> uint64" where
  "iterate step x n = (step ^^ unat n) x"

section \<open>Instances of the parameters\<close>

text \<open>
  Concrete values for the parameters, at which the theorems are instantiated: two step
  functions for the chain, a stand-in for the digest that depends on the length of the
  data, the key itself as its hash, and two owners.
\<close>

definition step_succ :: "uint64 \<Rightarrow> uint64" where
  "step_succ x = x + 1"

definition step_mult :: "uint64 \<Rightarrow> uint64" where
  "step_mult x = x * 0x9E3779B97F4A7C15"

definition digest_length :: "byte list \<Rightarrow> 256 word" where
  "digest_length bs = push_bit 192 (of_nat (length bs))"

definition hash_key :: "byte list Owner \<Rightarrow> byte list" where
  "hash_key owner = (case Private owner of None \<Rightarrow> [] | Some k \<Rightarrow> k)"

definition owner_signing :: "byte list Owner" where
  "owner_signing = \<lparr>Private = Some [1, 2, 3]\<rparr>"

definition owner_public :: "byte list Owner" where
  "owner_public = \<lparr>Private = None\<rparr>"

section \<open>Bytes and words\<close>

subsection \<open>Lists of at least eight elements\<close>

lemma long8:
  "8 \<le> length (b :: 'a list) \<Longrightarrow>
     \<exists>a0 a1 a2 a3 a4 a5 a6 a7 r. b = a0 # a1 # a2 # a3 # a4 # a5 # a6 # a7 # r"
  by (auto simp add: numeral_eq_Suc Suc_le_length_iff)

lemma upt8: "[0..<8] = [0, 1, 2, 3, 4, 5, 6, 7]"
  by (simp add: upt_rec)

subsection \<open>The bytes of a word\<close>

lemma byte_of_shift:
  "(ucast (drop_bit (8 * j) (v :: uint64)) :: byte) = of_nat (unat v div 256 ^ j mod 256)"
proof -
  have "(ucast (drop_bit (8 * j) v) :: byte) = of_nat (unat (drop_bit (8 * j) v))"
    by simp
  also have "unat (drop_bit (8 * j) v) = unat v div 256 ^ j"
    by (subst unat_drop_bit_eq) (simp add: drop_bit_eq_div power_mult)
  also have "(of_nat (unat v div 256 ^ j) :: byte) = of_nat (unat v div 256 ^ j mod 256)"
    by (simp add: word_of_nat_eq_iff take_bit_eq_mod)
  finally show ?thesis .
qed

lemma be64_unfold:
  "be64 v = [ucast (drop_bit 56 v), ucast (drop_bit 48 v), ucast (drop_bit 40 v),
             ucast (drop_bit 32 v), ucast (drop_bit 24 v), ucast (drop_bit 16 v),
             ucast (drop_bit 8 v), ucast v]"
  using byte_of_shift [of 7 v] byte_of_shift [of 6 v] byte_of_shift [of 5 v]
    byte_of_shift [of 4 v] byte_of_shift [of 3 v] byte_of_shift [of 2 v]
    byte_of_shift [of 1 v] byte_of_shift [of 0 v]
  by (simp add: be64_def upt8)

lemma length_be64: "length (be64 v) = 8"
  by (simp add: be64_def)

lemma PutUint64_be64:
  assumes "8 \<le> length b"
  shows "PutUint64 b v = Some (be64 v @ drop 8 b)"
proof -
  from assms obtain a0 a1 a2 a3 a4 a5 a6 a7 r
    where b: "b = a0 # a1 # a2 # a3 # a4 # a5 # a6 # a7 # r"
    using long8 by blast
  show ?thesis by (simp add: b PutUint64_def be64_unfold)
qed

subsection \<open>Reading eight bytes back\<close>

lemma bit_byte0:
  "bit (ucast (ucast (w :: uint64) :: byte) :: uint64) n \<longleftrightarrow> n < 8 \<and> bit w n"
  by (auto simp add: bit_simps dest: bit_imp_le_length)

lemma bit_byte_at:
  "bit (push_bit k (ucast (ucast (drop_bit k (w :: uint64)) :: byte)) :: uint64) n
     \<longleftrightarrow> k \<le> n \<and> n < k + 8 \<and> bit w n"
  by (auto simp add: bit_simps dest: bit_imp_le_length)

lemma or_of_bytes:
  "ucast (ucast v :: byte) OR push_bit 8 (ucast (ucast (drop_bit 8 v) :: byte))
   OR push_bit 16 (ucast (ucast (drop_bit 16 v) :: byte))
   OR push_bit 24 (ucast (ucast (drop_bit 24 v) :: byte))
   OR push_bit 32 (ucast (ucast (drop_bit 32 v) :: byte))
   OR push_bit 40 (ucast (ucast (drop_bit 40 v) :: byte))
   OR push_bit 48 (ucast (ucast (drop_bit 48 v) :: byte))
   OR push_bit 56 (ucast (ucast (drop_bit 56 v) :: byte)) = (v :: uint64)"
  (is "?lhs = v")
proof (rule bit_eqI)
  fix n
  show "bit ?lhs n = bit v n"
  proof (cases "bit v n")
    case False
    then show ?thesis by (simp only: bit_or_iff bit_byte0 bit_byte_at) simp
  next
    case True
    then have "n < 64" by (auto dest: bit_imp_le_length)
    then have "n < 8 \<or> (8 \<le> n \<and> n < 8 + 8) \<or> (16 \<le> n \<and> n < 16 + 8)
       \<or> (24 \<le> n \<and> n < 24 + 8) \<or> (32 \<le> n \<and> n < 32 + 8) \<or> (40 \<le> n \<and> n < 40 + 8)
       \<or> (48 \<le> n \<and> n < 48 + 8) \<or> (56 \<le> n \<and> n < 56 + 8)"
      by arith
    with True show ?thesis by (simp only: bit_or_iff bit_byte0 bit_byte_at) blast
  qed
qed

lemma Uint64_be64: "BigEndian_Uint64 (be64 v @ r) = Some v"
  using or_of_bytes [of v] by (simp add: BigEndian_Uint64_def be64_unfold)

lemma be64_inject: "be64 a = be64 b \<longleftrightarrow> a = b"
proof
  assume "be64 a = be64 b"
  then have "BigEndian_Uint64 (be64 a @ []) = BigEndian_Uint64 (be64 b @ [])"
    by simp
  then show "a = b"
    by (simp only: Uint64_be64 option.inject)
qed simp

subsection \<open>The value of a big-endian byte sequence\<close>

lemma or_byte: "push_bit 8 (x :: uint64) OR ucast (b :: byte) = 256 * x + ucast b"
proof -
  have "push_bit 8 x AND (ucast b :: uint64) = 0"
    by (rule bit_eqI) (auto simp add: bit_simps dest: bit_imp_le_length)
  then have "push_bit 8 x + ucast b = push_bit 8 x OR ucast b"
    by (rule disjunctive_add_eq_or)
  then show ?thesis by (simp add: push_bit_eq_mult mult.commute)
qed

lemma foldl_or_byte:
  "foldl (\<lambda>a b. push_bit 8 a OR ucast b) (of_nat n) bs
     = (of_nat (foldl (\<lambda>a (b :: byte). 256 * a + unat b) n bs) :: uint64)"
proof (induction bs arbitrary: n)
  case Nil
  show ?case by simp
next
  case (Cons b bs)
  have "push_bit 8 (of_nat n) OR ucast b = (of_nat (256 * n + unat b) :: uint64)"
    by (simp add: or_byte)
  then show ?case using Cons.IH [of "256 * n + unat b"] by simp
qed

lemma be_word_value:
  "foldl (\<lambda>a b. push_bit 8 a OR ucast b) 0 bs = (of_nat (be_value bs) :: uint64)"
  using foldl_or_byte [of 0 bs] by (simp add: be_value_def)

lemma BigEndian_Uint64_value:
  assumes "8 \<le> length b"
  shows "BigEndian_Uint64 b = Some (of_nat (be_value (take 8 b)))"
proof -
  from assms obtain a0 a1 a2 a3 a4 a5 a6 a7 r
    where b: "b = a0 # a1 # a2 # a3 # a4 # a5 # a6 # a7 # r"
    using long8 by blast
  have "BigEndian_Uint64 b = Some (foldl (\<lambda>a b. push_bit 8 a OR ucast b) 0 (take 8 b))"
    by (simp add: b BigEndian_Uint64_def ac_simps)
  then show ?thesis by (simp only: be_word_value)
qed

lemma foldl_be_bound:
  "foldl (\<lambda>a (b :: byte). 256 * a + unat b) n bs < 256 ^ length bs * (n + 1)"
proof (induction bs arbitrary: n)
  case Nil
  show ?case by simp
next
  case (Cons b bs)
  have "unat b < 256" using unsigned_less [of b] by simp
  then have "256 * n + unat b + 1 \<le> 256 * (n + 1)" by simp
  then have "(256 :: nat) ^ length bs * (256 * n + unat b + 1)
      \<le> 256 ^ length bs * (256 * (n + 1))"
    by (rule mult_le_mono2)
  also have "\<dots> = 256 ^ length (b # bs) * (n + 1)"
    by (simp add: algebra_simps)
  finally have "(256 :: nat) ^ length bs * (256 * n + unat b + 1) \<le> 256 ^ length (b # bs) * (n + 1)" .
  with Cons.IH [of "256 * n + unat b"]
  have "foldl (\<lambda>a (b :: byte). 256 * a + unat b) (256 * n + unat b) bs
      < 256 ^ length (b # bs) * (n + 1)"
    by (rule less_le_trans)
  then show ?case by simp
qed

lemma be_value_bound: "be_value bs < 256 ^ length bs"
  using foldl_be_bound [of 0 bs] by (simp add: be_value_def)

lemma be_value_be64: "be_value (be64 v) = unat v"
proof -
  have "BigEndian_Uint64 (be64 v) = Some (of_nat (be_value (take 8 (be64 v))))"
    by (rule BigEndian_Uint64_value) (simp add: length_be64)
  moreover have "BigEndian_Uint64 (be64 v) = Some v"
    using Uint64_be64 [of v "[]"] by simp
  ultimately have v: "v = of_nat (be_value (be64 v))"
    by (simp add: length_be64)
  have "be_value (be64 v) < 2 ^ 64"
    using be_value_bound [of "be64 v"] by (simp add: length_be64)
  then have "unat (of_nat (be_value (be64 v)) :: uint64) = be_value (be64 v)"
    by (simp add: unat_of_nat)
  with v show ?thesis by simp
qed

subsection \<open>Three bytes of minutes\<close>

lemma bit24: "(m :: uint) < 2 ^ 24 \<Longrightarrow> bit m n \<Longrightarrow> n < 24"
proof -
  assume a: "m < 2 ^ 24" and b: "bit m n"
  from a have "m AND mask 24 = m" by (rule less_mask_eq)
  then have "bit (m AND mask 24) n" using b by simp
  then show "n < 24" by (simp add: bit_simps)
qed

lemma or_of_minute_bytes:
  assumes "(m :: uint) < 2 ^ 24"
  shows "push_bit 16 (ucast (ucast (drop_bit 16 m) :: byte))
     OR push_bit 8 (ucast (ucast (drop_bit 8 m) :: byte))
     OR ucast (ucast m :: byte) = m" (is "?lhs = m")
proof (rule bit_eqI)
  fix n
  show "bit ?lhs n = bit m n"
  proof (cases "bit m n")
    case False
    then show ?thesis by (simp only: bit_or_iff bit_byte0 bit_byte_at) simp
  next
    case True
    with assms have "n < 24" by (rule bit24)
    then have "(16 \<le> n \<and> n < 16 + 8) \<or> (8 \<le> n \<and> n < 8 + 8) \<or> n < 8"
      by arith
    with True show ?thesis by (simp only: bit_or_iff bit_byte0 bit_byte_at) blast
  qed
qed

lemma RecordMaxPulseSpan_fits: "RecordMaxPulseSpan < 2 ^ 24"
  by (simp add: RecordMaxPulseSpan_def)

lemma Minutes_value:
  assumes "length p = 11"
  shows "Minutes p = Some (let raw = of_nat (be_value (drop 8 p))
                           in if raw > RecordMaxPulseSpan then RecordMaxPulseSpan else raw)"
proof -
  from assms obtain a0 a1 a2 a3 a4 a5 a6 a7 r
    where b: "p = a0 # a1 # a2 # a3 # a4 # a5 # a6 # a7 # r"
    using long8 [of p] by auto
  with assms obtain b8 b9 b10 where r: "r = [b8, b9, b10]"
    by (auto simp add: length_Suc_conv numeral_eq_Suc)
  have "of_nat (be_value (drop 8 p))
          = (push_bit 16 (ucast b8) OR push_bit 8 (ucast b9) OR ucast b10 :: uint64)"
    by (simp add: b r ac_simps flip: be_word_value)
  then show ?thesis
    by (simp add: Minutes_def PulseSize_def at_def b r Let_def or.assoc)
qed

section \<open>The hashed data\<close>

text \<open>
  The loop writes to the hasher, from index \<open>i\<close> on, what the spec lists: each name and,
  where there is one, its ordinal as eight bytes. The scratch array keeps its length.
\<close>

lemma length_digest_bytes: "length (digest_bytes d) = 32"
  by (simp add: digest_bytes_def)

lemma selectors_loop_spec:
  "8 \<le> length tmp \<Longrightarrow>
     \<exists>tmp'. selectors_loop names ords i tmp h =
        Some (tmp', h @ concat (map (\<lambda>j. names ! j @ (if j < length ords then be64 (ords ! j) else []))
                                   [i..<length names]))
      \<and> length tmp' = length tmp"
proof (induction names ords i tmp h rule: selectors_loop.induct)
  case (1 names ords i tmp h)
  show ?case
  proof (cases "i < length names")
    case False
    then show ?thesis by (simp add: selectors_loop.simps)
  next
    case inn: True
    then have upt: "[i..<length names] = i # [i + 1..<length names]"
      by (simp add: upt_conv_Cons)
    from inn have atn: "at names i = Some (names ! i)"
      by (simp add: at_def)
    show ?thesis
    proof (cases "i < length ords")
      case False
      from "1.IH"(2) [OF inn atn refl False] "1.prems"
      obtain tmp' where "selectors_loop names ords (i + 1) tmp (Write h (names ! i)) =
          Some (tmp', Write h (names ! i) @
            concat (map (\<lambda>j. names ! j @ (if j < length ords then be64 (ords ! j) else []))
                      [i + 1..<length names]))" and "length tmp' = length tmp"
        by auto
      with inn False show ?thesis
        by (subst selectors_loop.simps) (simp add: at_def upt Write_def)
    next
      case ino: True
      let ?tmp1 = "be64 (ords ! i) @ drop 8 tmp"
      from ino have ato: "at ords i = Some (ords ! i)"
        by (simp add: at_def)
      have put: "PutUint64 tmp (ords ! i) = Some ?tmp1"
        using "1.prems" by (rule PutUint64_be64)
      have len: "length ?tmp1 = length tmp" "8 \<le> length ?tmp1"
        using "1.prems" by (simp_all add: length_be64)
      from "1.IH"(1) [OF inn atn refl ino ato put refl] len
      obtain tmp' where "selectors_loop names ords (i + 1) ?tmp1
            (Write (Write h (names ! i)) (take 8 ?tmp1)) =
          Some (tmp', Write (Write h (names ! i)) (take 8 ?tmp1) @
            concat (map (\<lambda>j. names ! j @ (if j < length ords then be64 (ords ! j) else []))
                      [i + 1..<length names]))" and "length tmp' = length tmp"
        by auto
      with inn ino put show ?thesis
        by (subst selectors_loop.simps) (simp add: at_def upt Write_def length_be64)
    qed
  qed
qed

section \<open>What \<open>NewPulse\<close> returns\<close>

text \<open>
  The three ways out of \<open>NewPulse\<close>. On the last one the pulse is the chain value as
  eight big-endian bytes, followed by the three low bytes of \<open>minutes\<close>.
\<close>

lemma NewPulse_unfold:
  "NewPulse th64n sha256 PrivateHash owner names ords ts minutes =
    (if Private owner = None then Some ([], Some ErrPrivateKeyRequired)
     else if RecordMaxPulseSpan < minutes then Some ([], Some ErrInvalidParameter)
     else Some (be64 (th64n (spec_anchor_seed sha256 names ords ts (PrivateHash owner))
                        (RecordMaxPulseSpan - minutes))
                  @ [ucast (drop_bit 16 minutes), ucast (drop_bit 8 minutes), ucast minutes],
                None))"
proof -
  let ?data = "concat (map (\<lambda>j. names ! j @ (if j < length ords then be64 (ords ! j) else []))
                         [0..<length names])"
  obtain tmp' where loop: "selectors_loop names ords 0 (replicate 32 0) [] = Some (tmp', ?data)"
    and len: "length tmp' = 32"
    using selectors_loop_spec [of "replicate 32 0" names ords 0 "[]"] by auto
  have put: "PutUint64 tmp' ts = Some (be64 ts @ drop 8 tmp')"
    by (rule PutUint64_be64) (simp add: len)
  let ?h = "spec_seed_input names ords ts (PrivateHash owner)"
  have seed: "BigEndian_Uint64 (digest_bytes (sha256 ?h))
      = Some (spec_anchor_seed sha256 names ords ts (PrivateHash owner))"
    unfolding spec_anchor_seed_def
    by (rule BigEndian_Uint64_value) (simp add: length_digest_bytes)
  have pbuf: "PutUint64 (replicate 11 0) v = Some (be64 v @ [0, 0, 0])" for v
    using PutUint64_be64 [of "replicate 11 0" v] by (simp add: numeral_eq_Suc)
  show ?thesis
    by (simp add: NewPulse_def Let_def loop put Write_def sha256_New_def Sum_def length_be64
        seed [unfolded spec_seed_input_def] spec_seed_input_def PulseSize_def pbuf store_def
        nth_append list_update_append)
qed

text \<open>
  The hashed data, and with them the result, depend on the ordinals only through the first
  \<open>length selectorNames\<close> of them.
\<close>

lemma spec_seed_input_surplus:
  "spec_seed_input names (take (length names) ords) ts ophash = spec_seed_input names ords ts ophash"
proof -
  have "map (\<lambda>i. names ! i @ (if i < length (take (length names) ords)
                               then be64 (take (length names) ords ! i) else []))
            [0..<length names]
      = map (\<lambda>i. names ! i @ (if i < length ords then be64 (ords ! i) else []))
            [0..<length names]"
    by (rule map_cong) auto
  then show ?thesis
    by (simp only: spec_seed_input_def)
qed

lemma NewPulse_surplus:
  "NewPulse th64n sha256 PrivateHash owner names (take (length names) ords) ts minutes
     = NewPulse th64n sha256 PrivateHash owner names ords ts minutes"
  by (simp only: NewPulse_unfold spec_anchor_seed_def spec_seed_input_surplus)

section \<open>The accessors on a generated pulse\<close>

lemma Key_encoded: "Key (be64 v @ [a, b, c]) = Some v"
  using Uint64_be64 [of v "[]"] by (simp add: Key_def PulseSize_def length_be64)

lemma Minutes_encoded:
  assumes "m \<le> RecordMaxPulseSpan"
  shows "Minutes (be64 v @ [ucast (drop_bit 16 m), ucast (drop_bit 8 m), ucast m]) = Some m"
proof -
  from assms RecordMaxPulseSpan_fits have "m < 2 ^ 24"
    by (rule le_less_trans)
  then have "push_bit 16 (ucast (ucast (drop_bit 16 m) :: byte))
     OR push_bit 8 (ucast (ucast (drop_bit 8 m) :: byte))
     OR ucast (ucast m :: byte) = m"
    by (rule or_of_minute_bytes)
  moreover from assms have "\<not> RecordMaxPulseSpan < m"
    by (simp add: not_less)
  ultimately show ?thesis
    by (simp add: Minutes_def PulseSize_def length_be64 at_def nth_append Let_def or.assoc)
qed

section \<open>Chains\<close>

text \<open>
  A step applied \<open>n\<close> times has both chain laws, whatever the step; and a chain with the
  laws, advanced \<open>n - m\<close> steps and then \<open>m\<close>, has advanced \<open>n\<close> steps.
\<close>

lemma chain_laws_iterate: "chain_laws (iterate step)"
proof -
  have "(step ^^ unat b) ((step ^^ unat a) x) = (step ^^ unat (a + b)) x"
    if "unat a + unat b < 2 ^ 64" for x and a b :: uint
  proof -
    from that have "unat (a + b) = unat a + unat b"
      using unat_add_lem [of a b] by simp
    then have "(step ^^ unat (a + b)) x = (step ^^ (unat b + unat a)) x"
      by (simp add: add.commute)
    then show ?thesis
      by (simp only: funpow_add o_apply)
  qed
  then show ?thesis
    by (simp add: chain_laws_def iterate_def)
qed

lemma chain_compose:
  assumes "chain_laws chain" and "m \<le> n"
  shows "chain (chain x (n - m)) m = chain x n"
proof -
  from \<open>m \<le> n\<close> have "unat (n - m) = unat n - unat m"
    by (rule unat_sub)
  moreover from \<open>m \<le> n\<close> have "unat m \<le> unat n"
    by (simp add: word_le_nat_alt)
  ultimately have "unat (n - m) + unat m = unat n"
    by simp
  moreover have "unat n < 2 ^ 64"
    using unsigned_less [of n] by simp
  ultimately have "unat (n - m) + unat m < 2 ^ 64"
    by simp
  with \<open>chain_laws chain\<close> have "chain (chain x (n - m)) m = chain x ((n - m) + m)"
    by (simp add: chain_laws_def)
  then show ?thesis by simp
qed

lemma Token_encoded:
  assumes "chain_laws th64n" and "m \<le> RecordMaxPulseSpan"
  shows "Token th64n (be64 (th64n S (RecordMaxPulseSpan - m))
                        @ [ucast (drop_bit 16 m), ucast (drop_bit 8 m), ucast m])
           = Some (th64n S RecordMaxPulseSpan)"
  using assms by (simp add: Token_def Key_encoded Minutes_encoded chain_compose)

lemma iterate_succ: "iterate step_succ x n = x + n"
proof -
  have "(step_succ ^^ k) x = x + of_nat k" for k
    by (induction k) (simp_all add: step_succ_def)
  then show ?thesis by (simp add: iterate_def)
qed

section \<open>Ten minutes and twenty minutes\<close>

text \<open>
  What the chain laws give for the pulses of 10 and of 20 minutes of one record: both
  have the token \<open>chain(S, RecordMaxPulseSpan)\<close>, and their bytes 0 to 7 are the bytes of
  \<open>chain(S, RecordMaxPulseSpan - 10)\<close> and of \<open>chain(S, RecordMaxPulseSpan - 20)\<close>, so that
  they differ exactly when these two chain values do. Whether the two chain values differ
  is a property of \<open>th64n\<close> and of the digest, which are defined outside the pulse code;
  it is not decided here.
\<close>

lemma pulses_of_10_and_20_minutes:
  assumes "chain_laws th64n" and "Private owner \<noteq> None"
  shows "\<exists>p10 p20.
      NewPulse th64n sha256 PrivateHash owner selectorNames selectorOrdinals recordTimestamp 10
        = Some (p10, None)
    \<and> NewPulse th64n sha256 PrivateHash owner selectorNames selectorOrdinals recordTimestamp 20
        = Some (p20, None)
    \<and> Token th64n p10 = Token th64n p20
    \<and> Token th64n p10 \<noteq> None
    \<and> (take 8 p10 \<noteq> take 8 p20 \<longleftrightarrow>
         th64n (spec_anchor_seed sha256 selectorNames selectorOrdinals recordTimestamp
                  (PrivateHash owner)) (RecordMaxPulseSpan - 10)
         \<noteq> th64n (spec_anchor_seed sha256 selectorNames selectorOrdinals recordTimestamp
                  (PrivateHash owner)) (RecordMaxPulseSpan - 20))"
proof -
  let ?S = "spec_anchor_seed sha256 selectorNames selectorOrdinals recordTimestamp
              (PrivateHash owner)"
  let ?p = "\<lambda>m. be64 (th64n ?S (RecordMaxPulseSpan - m))
                 @ [ucast (drop_bit 16 m), ucast (drop_bit 8 m), ucast m]"
  have le: "10 \<le> RecordMaxPulseSpan" "20 \<le> RecordMaxPulseSpan"
    by (simp_all add: RecordMaxPulseSpan_def)
  have new: "NewPulse th64n sha256 PrivateHash owner selectorNames selectorOrdinals
               recordTimestamp m = Some (?p m, None)" if "m \<le> RecordMaxPulseSpan" for m
    using assms(2) that by (simp add: NewPulse_unfold not_less)
  have tok: "Token th64n (?p m) = Some (th64n ?S RecordMaxPulseSpan)"
    if "m \<le> RecordMaxPulseSpan" for m
    using assms(1) that by (rule Token_encoded)
  have bytes: "take 8 (?p m) = be64 (th64n ?S (RecordMaxPulseSpan - m))" for m
    by (simp add: length_be64)
  have "take 8 (?p 10) \<noteq> take 8 (?p 20) \<longleftrightarrow>
      th64n ?S (RecordMaxPulseSpan - 10) \<noteq> th64n ?S (RecordMaxPulseSpan - 20)"
    by (simp only: bytes be64_inject)
  with new [OF le(1)] new [OF le(2)] tok [OF le(1)] tok [OF le(2)] show ?thesis
    by (intro exI [of _ "?p 10"] exI [of _ "?p 20"]) simp
qed

section \<open>Two executions\<close>

text \<open>
  \<open>NewPulse\<close> run from its definition, with the chain that adds one at each step and the
  digest that returns the length of the data: 22 bytes are hashed, and the chain value
  is \<open>22 + (525600 - 10) = 0x08052C\<close>.
\<close>

lemma r11: "replicate 11 x = [x, x, x, x, x, x, x, x, x, x, x]"
  by (simp add: numeral_eq_Suc)

lemma r24:
  "replicate 24 x =
     [x, x, x, x, x, x, x, x, x, x, x, x, x, x, x, x, x, x, x, x, x, x, x, x]"
  by (simp add: numeral_eq_Suc)

lemma r32: "replicate 32 x = [x, x, x, x, x, x, x, x] @ replicate 24 x"
  by (simp add: numeral_eq_Suc)

lemma example_loop:
  "selectors_loop [[1, 2], [3]] [7] 0 (replicate 32 0) []
     = Some ([0, 0, 0, 0, 0, 0, 0, 7] @ replicate 24 0, [1, 2, 0, 0, 0, 0, 0, 0, 0, 7, 3])"
  by (simp add: selectors_loop.simps at_def Write_def PutUint64_def r32 r24)

lemma example_digest:
  "BigEndian_Uint64
     (Sum digest_length [1, 2, 0, 0, 0, 0, 0, 0, 0, 7, 3, 0, 0, 0, 0, 0, 0, 0, 9, 1, 2, 3] [])
     = Some 22"
  by (simp add: Sum_def digest_length_def digest_bytes_def BigEndian_Uint64_def nth_map)

lemma NewPulse_example:
  "NewPulse (iterate step_succ) digest_length hash_key owner_signing [[1, 2], [3]] [7] 9 10
     = Some ([0, 0, 0, 0, 0, 8, 5, 44, 0, 0, 10], None)"
  by (simp add: NewPulse_def owner_signing_def RecordMaxPulseSpan_def sha256_New_def Write_def
      hash_key_def example_loop example_digest PutUint64_def store_def PulseSize_def
      iterate_succ r11 r24)

text \<open>\<open>Minutes\<close> on both sides of the bound \<open>525600 = 0x080520\<close>.\<close>

lemma Minutes_below_bound:
  "Minutes [0, 0, 0, 0, 0, 0, 0, 0, 8, 5, 32] = Some 525600
   \<and> Minutes [0, 0, 0, 0, 0, 0, 0, 0, 8, 5, 33] = Some 525600
   \<and> Minutes [0, 0, 0, 0, 0, 0, 0, 0, 8, 5, 31] = Some 525599"
  by (simp add: Minutes_def PulseSize_def at_def RecordMaxPulseSpan_def)

section \<open>The claims\<close>

subsection \<open>The token of a generated pulse\<close>

text \<open>
  Claim C1. Let the chain function satisfy the identity \<open>chain(x, 0) = x\<close> and the
  composition law \<open>chain(chain(x, a), b) = chain(x, a + b)\<close>. For every owner holding
  private key material, all selector names, selector ordinals and record timestamp, and
  every \<open>minutes\<close> from 0 to \<open>RecordMaxPulseSpan\<close>, \<open>NewPulse\<close> returns a pulse \<open>p\<close>
  and no error, and \<open>Token p\<close> is \<open>chain(S, RecordMaxPulseSpan)\<close> for the anchor seed \<open>S\<close>
  of these inputs. The right-hand side does not mention \<open>minutes\<close>: the token is the
  same whichever value was chosen. Of the two laws the proof uses the composition law,
  at \<open>a = RecordMaxPulseSpan - minutes\<close> and \<open>b = minutes\<close>.
\<close>

theorem Token_reaches_anchor:
  assumes "chain_laws th64n" and "Private owner \<noteq> None" and "minutes \<le> RecordMaxPulseSpan"
  shows "\<exists>p. NewPulse th64n sha256 PrivateHash owner selectorNames selectorOrdinals
                 recordTimestamp minutes = Some (p, None)
             \<and> Token th64n p =
                 Some (th64n (spec_anchor_seed sha256 selectorNames selectorOrdinals
                                recordTimestamp (PrivateHash owner)) RecordMaxPulseSpan)"
  using assms
  by (simp add: NewPulse_unfold not_less Token_def Key_encoded Minutes_encoded chain_compose)

theorem Token_reaches_anchor_witness:
  "chain_laws (iterate step_mult) \<and> Private owner_signing \<noteq> None \<and> 10 \<le> RecordMaxPulseSpan \<and>
   (\<exists>p. NewPulse (iterate step_mult) digest_length hash_key owner_signing [[1, 2], [3]] [7] 9 10
           = Some (p, None)
       \<and> Token (iterate step_mult) p =
           Some (iterate step_mult (spec_anchor_seed digest_length [[1, 2], [3]] [7] 9
                                      (hash_key owner_signing)) RecordMaxPulseSpan))"
proof -
  have h1: "chain_laws (iterate step_mult)" by (rule chain_laws_iterate)
  have h2: "Private owner_signing \<noteq> None" by (simp add: owner_signing_def)
  have h3: "10 \<le> RecordMaxPulseSpan" by (simp add: RecordMaxPulseSpan_def)
  from h1 h2 h3 Token_reaches_anchor [OF h1 h2 h3] show ?thesis by blast
qed

subsection \<open>The chain value of a generated pulse\<close>

text \<open>
  Claim C2. On every successful call of \<open>NewPulse\<close>, that is for an owner with private
  key material and \<open>minutes\<close> at most \<open>RecordMaxPulseSpan\<close>, bytes 0 to 7 of the pulse
  are the big-endian bytes of \<open>chain(S, RecordMaxPulseSpan - minutes)\<close>, where \<open>S\<close> is
  the big-endian value of the first 8 bytes of the digest of: each selector name,
  followed by its ordinal as 8 big-endian bytes when there is one at the same index;
  then the timestamp as 8 big-endian bytes; then the private hash of the owner.
\<close>

theorem chain_value_of_NewPulse:
  assumes "Private owner \<noteq> None" and "minutes \<le> RecordMaxPulseSpan"
  shows "\<exists>p. NewPulse th64n sha256 PrivateHash owner selectorNames selectorOrdinals
                 recordTimestamp minutes = Some (p, None)
             \<and> take 8 p =
                 be64 (th64n (spec_anchor_seed sha256 selectorNames selectorOrdinals
                                recordTimestamp (PrivateHash owner))
                         (RecordMaxPulseSpan - minutes))"
  using assms by (simp add: NewPulse_unfold not_less length_be64)

theorem chain_value_of_NewPulse_witness:
  "Private owner_signing \<noteq> None \<and> 10 \<le> RecordMaxPulseSpan \<and>
   (\<exists>p. NewPulse (iterate step_succ) digest_length hash_key owner_signing [[1, 2], [3]] [7] 9 10
           = Some (p, None)
       \<and> take 8 p =
           be64 (iterate step_succ (spec_anchor_seed digest_length [[1, 2], [3]] [7] 9
                                      (hash_key owner_signing)) (RecordMaxPulseSpan - 10)))"
proof -
  have h2: "Private owner_signing \<noteq> None" by (simp add: owner_signing_def)
  have h3: "10 \<le> RecordMaxPulseSpan" by (simp add: RecordMaxPulseSpan_def)
  from h2 h3 chain_value_of_NewPulse [OF h2 h3] show ?thesis by blast
qed

subsection \<open>Decoding what was encoded\<close>

text \<open>
  Claim C3. For an owner with private key material and every \<open>minutes\<close> up to and
  including \<open>RecordMaxPulseSpan\<close>, \<open>NewPulse\<close> returns a pulse \<open>p\<close> of 11 bytes and no
  error, \<open>Minutes p\<close> is \<open>minutes\<close>, and \<open>Key p\<close> is the chain value that was written into
  bytes 0 to 7.
\<close>

theorem NewPulse_round_trip:
  assumes "Private owner \<noteq> None" and "minutes \<le> RecordMaxPulseSpan"
  shows "\<exists>p. NewPulse th64n sha256 PrivateHash owner selectorNames selectorOrdinals
                 recordTimestamp minutes = Some (p, None)
             \<and> length p = 11
             \<and> Minutes p = Some minutes
             \<and> Key p = Some (th64n (spec_anchor_seed sha256 selectorNames selectorOrdinals
                                       recordTimestamp (PrivateHash owner))
                                (RecordMaxPulseSpan - minutes))"
  using assms
  by (simp add: NewPulse_unfold not_less length_be64 Key_encoded Minutes_encoded)

theorem NewPulse_round_trip_witness:
  "Private owner_signing \<noteq> None \<and> RecordMaxPulseSpan \<le> RecordMaxPulseSpan \<and>
   (\<exists>p. NewPulse (iterate step_succ) digest_length hash_key owner_signing [[1, 2], [3]] [7] 9
           RecordMaxPulseSpan = Some (p, None)
       \<and> length p = 11
       \<and> Minutes p = Some RecordMaxPulseSpan
       \<and> Key p = Some (iterate step_succ (spec_anchor_seed digest_length [[1, 2], [3]] [7] 9
                                      (hash_key owner_signing))
                         (RecordMaxPulseSpan - RecordMaxPulseSpan)))"
proof -
  have h2: "Private owner_signing \<noteq> None" by (simp add: owner_signing_def)
  have h3: "RecordMaxPulseSpan \<le> RecordMaxPulseSpan" by simp
  from h2 h3 NewPulse_round_trip [OF h2 h3] show ?thesis by blast
qed

subsection \<open>The two errors\<close>

text \<open>
  Claim C4. When the owner has no private key material, \<open>NewPulse\<close> returns the error
  \<open>ErrPrivateKeyRequired\<close>, "private key required", whatever the other arguments are.
\<close>

theorem NewPulse_private_key_required:
  "Private owner = None \<Longrightarrow>
     NewPulse th64n sha256 PrivateHash owner selectorNames selectorOrdinals recordTimestamp minutes
       = Some ([], Some ErrPrivateKeyRequired)"
  by (simp add: NewPulse_def)

theorem NewPulse_private_key_required_witness:
  "Private owner_public = None \<and>
   NewPulse (iterate step_succ) digest_length hash_key owner_public [[1, 2], [3]] [7] 9 10
     = Some ([], Some (Err ''private key required''))"
  using NewPulse_private_key_required
    [of owner_public "iterate step_succ" digest_length hash_key "[[1, 2], [3]]" "[7]" 9 10]
  by (simp add: owner_public_def ErrPrivateKeyRequired_def)

text \<open>
  Claim C5. For an owner with private key material, \<open>NewPulse\<close> returns the error
  \<open>ErrInvalidParameter\<close> if and only if \<open>minutes\<close> is greater than
  \<open>RecordMaxPulseSpan\<close>.
\<close>

theorem NewPulse_invalid_parameter_iff:
  "Private owner \<noteq> None \<Longrightarrow>
     (\<exists>p. NewPulse th64n sha256 PrivateHash owner selectorNames selectorOrdinals recordTimestamp
             minutes = Some (p, Some ErrInvalidParameter))
       \<longleftrightarrow> minutes > RecordMaxPulseSpan"
  by (auto simp add: NewPulse_unfold)

theorem NewPulse_invalid_parameter_iff_witness:
  "Private owner_signing \<noteq> None \<and>
   ((\<exists>p. NewPulse (iterate step_succ) digest_length hash_key owner_signing [[1, 2], [3]] [7] 9
            (RecordMaxPulseSpan + 1) = Some (p, Some ErrInvalidParameter))
       \<longleftrightarrow> RecordMaxPulseSpan + 1 > RecordMaxPulseSpan) \<and>
   RecordMaxPulseSpan + 1 > RecordMaxPulseSpan"
proof -
  have h: "Private owner_signing \<noteq> None" by (simp add: owner_signing_def)
  have g: "RecordMaxPulseSpan + 1 > RecordMaxPulseSpan" by (simp add: RecordMaxPulseSpan_def)
  from h g NewPulse_invalid_parameter_iff [OF h] show ?thesis by blast
qed

subsection \<open>Minutes are clamped\<close>

text \<open>
  Claim C6. For every pulse \<open>p\<close> of 11 bytes, \<open>Minutes p\<close> returns, without failing, the
  24-bit big-endian integer \<open>65536 * p[8] + 256 * p[9] + p[10]\<close>, except that a value
  greater than \<open>RecordMaxPulseSpan\<close> is returned as \<open>RecordMaxPulseSpan\<close>.
\<close>

theorem Minutes_clamps:
  assumes "length p = 11"
  shows "Minutes p =
     Some (let raw = 65536 * unat (p ! 8) + 256 * unat (p ! 9) + unat (p ! 10)
           in if unat RecordMaxPulseSpan < raw then RecordMaxPulseSpan else of_nat raw)"
proof -
  let ?raw = "65536 * unat (p ! 8) + 256 * unat (p ! 9) + unat (p ! 10)"
  from assms obtain a0 a1 a2 a3 a4 a5 a6 a7 r
    where b: "p = a0 # a1 # a2 # a3 # a4 # a5 # a6 # a7 # r"
    using long8 [of p] by auto
  with assms obtain b8 b9 b10 where r: "r = [b8, b9, b10]"
    by (auto simp add: length_Suc_conv numeral_eq_Suc)
  have raw: "be_value (drop 8 p) = ?raw"
    by (simp add: b r be_value_def)
  have "be_value (drop 8 p) < 256 ^ length (drop 8 p)"
    by (rule be_value_bound)
  with raw have "?raw < 2 ^ 64"
    by (simp add: b r)
  moreover have "unat (of_nat ?raw :: uint) = ?raw mod 2 ^ LENGTH(64)"
    by (rule unat_of_nat)
  ultimately have u: "unat (of_nat ?raw :: uint) = ?raw"
    by simp
  have "RecordMaxPulseSpan < (of_nat ?raw :: uint) \<longleftrightarrow> unat RecordMaxPulseSpan < ?raw"
    by (simp only: word_less_nat_alt u)
  with Minutes_value [OF assms] raw show ?thesis
    by (simp add: Let_def)
qed

theorem Minutes_clamps_witness:
  "length [0, 0, 0, 0, 0, 0, 0, 0, 255, 255, 255 :: byte] = 11 \<and>
   Minutes [0, 0, 0, 0, 0, 0, 0, 0, 255, 255, 255] = Some RecordMaxPulseSpan \<and>
   RecordMaxPulseSpan = 525600"
  using Minutes_clamps [of "[0, 0, 0, 0, 0, 0, 0, 0, 255, 255, 255]"]
  by (simp add: RecordMaxPulseSpan_def)

subsection \<open>The accessors on a malformed pulse\<close>

text \<open>
  Claim C7. For every byte sequence \<open>p\<close> whose length is not 11, both accessors return
  zero, and neither fails: \<open>Key p\<close> is 0 and \<open>Minutes p\<close> is 0.
\<close>

theorem accessors_degrade_to_zero:
  "length p \<noteq> 11 \<Longrightarrow> Key p = Some 0 \<and> Minutes p = Some 0"
  by (simp add: Key_def Minutes_def PulseSize_def)

theorem accessors_degrade_to_zero_witness:
  "length [1, 2, 3 :: byte] \<noteq> 11 \<and> Key [1, 2, 3] = Some 0 \<and> Minutes [1, 2, 3] = Some 0"
  using accessors_degrade_to_zero [of "[1, 2, 3]"] by simp

subsection \<open>No pulse beside an error\<close>

text \<open>
  Claim C8. \<open>NewPulse\<close> always returns, and whenever the error it returns is not \<open>nil\<close>,
  the pulse it returns is the empty slice and the error is one of the two constants
  \<open>ErrPrivateKeyRequired\<close> and \<open>ErrInvalidParameter\<close>.
\<close>

theorem NewPulse_no_pulse_on_error:
  "\<exists>p err. NewPulse th64n sha256 PrivateHash owner selectorNames selectorOrdinals recordTimestamp
              minutes = Some (p, err)
      \<and> (err \<noteq> None \<longrightarrow>
            p = [] \<and> (err = Some ErrPrivateKeyRequired \<or> err = Some ErrInvalidParameter))"
  by (simp add: NewPulse_unfold)

theorem NewPulse_no_pulse_on_error_witness:
  "\<exists>p err. NewPulse (iterate step_succ) digest_length hash_key owner_signing [[1, 2], [3]] [7] 9
              (RecordMaxPulseSpan + 1) = Some (p, err)
      \<and> err \<noteq> None \<and> p = [] \<and> err = Some ErrInvalidParameter"
  using NewPulse_no_pulse_on_error
    [of "iterate step_succ" digest_length hash_key owner_signing "[[1, 2], [3]]" "[7]" 9
        "RecordMaxPulseSpan + 1"]
  by (simp add: NewPulse_unfold owner_signing_def RecordMaxPulseSpan_def)

subsection \<open>Surplus ordinals\<close>

text \<open>
  Claim C10. Two calls of \<open>NewPulse\<close> that differ only in the selector ordinals, and
  whose ordinals have the same first \<open>length selectorNames\<close> entries, return the same
  pulse and the same error: ordinals at the indices from \<open>length selectorNames\<close> on are
  not read.
\<close>

theorem NewPulse_ignores_surplus_ordinals:
  assumes "take (length selectorNames) ordinals1 = take (length selectorNames) ordinals2"
  shows "NewPulse th64n sha256 PrivateHash owner selectorNames ordinals1 recordTimestamp minutes
       = NewPulse th64n sha256 PrivateHash owner selectorNames ordinals2 recordTimestamp minutes"
proof -
  have "NewPulse th64n sha256 PrivateHash owner selectorNames ordinals1 recordTimestamp minutes
      = NewPulse th64n sha256 PrivateHash owner selectorNames
          (take (length selectorNames) ordinals1) recordTimestamp minutes"
    by (simp only: NewPulse_surplus)
  also have "\<dots> = NewPulse th64n sha256 PrivateHash owner selectorNames
          (take (length selectorNames) ordinals2) recordTimestamp minutes"
    by (simp only: assms)
  also have "\<dots> = NewPulse th64n sha256 PrivateHash owner selectorNames ordinals2
          recordTimestamp minutes"
    by (simp only: NewPulse_surplus)
  finally show ?thesis .
qed

theorem NewPulse_ignores_surplus_ordinals_witness:
  "take (length [[1, 2], [3 :: byte]]) [7, 8, 4 :: uint64] = take (length [[1, 2], [3 :: byte]]) [7, 8, 5, 6] \<and>
   NewPulse (iterate step_succ) digest_length hash_key owner_signing [[1, 2], [3]] [7, 8, 4] 9 10
     = NewPulse (iterate step_succ) digest_length hash_key owner_signing [[1, 2], [3]] [7, 8, 5, 6] 9 10"
proof -
  have h: "take (length [[1, 2], [3 :: byte]]) [7, 8, 4 :: uint64]
      = take (length [[1, 2], [3 :: byte]]) [7, 8, 5, 6]"
    by simp
  from h NewPulse_ignores_surplus_ordinals [OF h] show ?thesis by blast
qed

end
